theory Spec2Isabelle
  imports Main
begin

section \<open>Python strings and built-ins used by \<open>main.py\<close>\<close>

text \<open>
  A Python \<open>str\<close> is modelled as a \<open>string\<close>, a list of 8-bit characters read as the
  code points below 256. Exceptions are values: a function that can raise returns
  \<open>error + 'a\<close>, with \<open>Inl\<close> for the exception. \<open>ValueError\<close> and \<open>KeyError\<close> carry
  their argument; the messages of the built-ins are shortened, the message of
  \<open>load_document\<close> is the source's. \<open>ServiceError\<close> stands for whatever an external
  service (a document loader, the embedding model, the language model) raises, and
  \<open>OutsideFragment\<close> marks the inputs of a built-in that its model here does not cover.
\<close>

datatype error =
    ValueError string
  | IndexError
  | KeyError string
  | ServiceError string
  | OutsideFragment

definition bind_err :: "error + 'a \<Rightarrow> ('a \<Rightarrow> error + 'b) \<Rightarrow> error + 'b" where
  "bind_err r f = (case r of Inl e \<Rightarrow> Inl e | Inr x \<Rightarrow> f x)"

definition nl :: char where
  "nl = CHR 0x0A"

text \<open>\<open>str.isspace\<close> on one character, for the code points below 256:
  9 to 13, 28 to 31, 32, 133 and 160.\<close>

definition isspace :: "char \<Rightarrow> bool" where
  "isspace c = (c \<in> set [CHR 0x09, CHR 0x0A, CHR 0x0B, CHR 0x0C, CHR 0x0D,
                           CHR 0x1C, CHR 0x1D, CHR 0x1E, CHR 0x1F, CHR 0x20,
                           CHR 0x85, CHR 0xA0])"

text \<open>\<open>s.strip()\<close>: whitespace removed at both ends.\<close>

definition strip :: "string \<Rightarrow> string" where
  "strip s = rev (dropWhile isspace (rev (dropWhile isspace s)))"

text \<open>\<open>s.startswith(p)\<close> and \<open>s.endswith(p)\<close>.\<close>

definition startswith :: "string \<Rightarrow> string \<Rightarrow> bool" where
  "startswith s p = (take (length p) s = p)"

definition endswith :: "string \<Rightarrow> string \<Rightarrow> bool" where
  "endswith s p = (length p \<le> length s \<and> drop (length s - length p) s = p)"

text \<open>\<open>sub in s\<close>: \<open>sub\<close> occurs in \<open>s\<close> as a contiguous run of characters.\<close>

fun contains :: "string \<Rightarrow> string \<Rightarrow> bool" where
  "contains sub [] = (sub = [])"
| "contains sub (c # cs) = (startswith (c # cs) sub \<or> contains sub cs)"

text \<open>\<open>s.split(sep)\<close> for a one-character separator: never empty, one more part than
  there are separators.\<close>

fun split :: "char \<Rightarrow> string \<Rightarrow> string list" where
  "split sep [] = [[]]"
| "split sep (c # cs) =
     (if c = sep then [] # split sep cs
      else (case split sep cs of
              [] \<Rightarrow> [[c]]
            | p # ps \<Rightarrow> (c # p) # ps))"

text \<open>\<open>s.split(sep, maxsplit)\<close>: at most \<open>maxsplit\<close> cuts, the last part keeps the
  remaining separators.\<close>

fun split_max :: "char \<Rightarrow> nat \<Rightarrow> string \<Rightarrow> string list" where
  "split_max sep 0 s = [s]"
| "split_max sep (Suc n) [] = [[]]"
| "split_max sep (Suc n) (c # cs) =
     (if c = sep then [] # split_max sep n cs
      else (case split_max sep (Suc n) cs of
              [] \<Rightarrow> [[c]]
            | p # ps \<Rightarrow> (c # p) # ps))"

text \<open>\<open>xs[i]\<close> for an index \<open>i \<ge> 0\<close>: \<open>IndexError\<close> out of range.\<close>

definition py_index :: "'a list \<Rightarrow> nat \<Rightarrow> error + 'a" where
  "py_index xs i = (if i < length xs then Inr (xs ! i) else Inl IndexError)"

text \<open>\<open>"\n".join(parts)\<close>.\<close>

fun join_nl :: "string list \<Rightarrow> string" where
  "join_nl [] = []"
| "join_nl [p] = p"
| "join_nl (p # q # ps) = p @ nl # join_nl (q # ps)"

subsection \<open>\<open>int(s)\<close>\<close>

text \<open>
  \<open>int(s)\<close> in base 10: optional whitespace, an optional sign, decimal digits with
  single underscores between them, optional whitespace; anything else is a
  \<open>ValueError\<close>. The whitespace \<open>int\<close> skips is narrower than that of \<open>strip\<close>: the
  separators 28 to 31 are not skipped. The interpreter also refuses a numeral of more
  than \<open>max_str_digits\<close> digits when that setting is positive and the numeral has more
  than 640 digits (\<open>sys.set_int_max_str_digits\<close>; 4300 by default, 0 for no limit);
  the setting is a parameter of the model.
\<close>

definition int_space :: "char \<Rightarrow> bool" where
  "int_space c = (c \<in> set [CHR 0x09, CHR 0x0A, CHR 0x0B, CHR 0x0C, CHR 0x0D, CHR 0x20,
                             CHR 0x85, CHR 0xA0])"

definition is_digit :: "char \<Rightarrow> bool" where
  "is_digit c = (c \<in> set ''0123456789'')"

definition digit_val :: "char \<Rightarrow> int" where
  "digit_val c = int (of_char c) - 48"

definition digits_value :: "string \<Rightarrow> int" where
  "digits_value ds = foldl (\<lambda>a c. 10 * a + digit_val c) 0 ds"

definition numeral_char :: "char \<Rightarrow> bool" where
  "numeral_char c = (is_digit c \<or> c = CHR ''_'')"

fun double_underscore :: "string \<Rightarrow> bool" where
  "double_underscore (c # d # cs) =
     ((c = CHR ''_'' \<and> d = CHR ''_'') \<or> double_underscore (d # cs))"
| "double_underscore cs = False"

definition has_sign :: "string \<Rightarrow> bool" where
  "has_sign s1 = (s1 \<noteq> [] \<and> (hd s1 = CHR ''+'' \<or> hd s1 = CHR ''-''))"

text \<open>The digits of a numeral: not empty, underscores only singly and between digits.\<close>

definition digits_ok :: "string \<Rightarrow> bool" where
  "digits_ok body =
     (body \<noteq> [] \<and> hd body \<noteq> CHR ''_'' \<and> last body \<noteq> CHR ''_''
      \<and> \<not> double_underscore body)"

definition too_many_digits :: "nat \<Rightarrow> nat \<Rightarrow> bool" where
  "too_many_digits max_str_digits ndigits =
     (0 < max_str_digits \<and> 640 < ndigits \<and> max_str_digits < ndigits)"

definition py_int :: "nat \<Rightarrow> string \<Rightarrow> error + int" where
  "py_int max_str_digits s =
     (let s1 = dropWhile int_space s;
          s2 = (if has_sign s1 then tl s1 else s1);
          body = takeWhile numeral_char s2;
          rest = dropWhile numeral_char s2;
          magnitude = digits_value (filter is_digit body)
      in if \<not> digits_ok body then
           Inl (ValueError ''invalid literal for int() with base 10'')
         else if too_many_digits max_str_digits (length (filter is_digit body)) then
           Inl (ValueError ''Exceeds the limit for integer string conversion'')
         else if dropWhile int_space rest \<noteq> [] then
           Inl (ValueError ''invalid literal for int() with base 10'')
         else Inr (if has_sign s1 \<and> hd s1 = CHR ''-'' then - magnitude else magnitude))"

section \<open>The response parser of \<open>get_matching_score_summary_and_edits\<close>\<close>

text \<open>The returned dictionary, and the loop's variables: \<open>score\<close>, \<open>summary\<close> and
  \<open>suggested_edits\<close> are the three fields that are returned, \<open>current_section\<close> is
  \<open>None\<close>, \<open>'score'\<close>, \<open>'summary'\<close> or \<open>'edits'\<close>.\<close>

datatype parser_section = Score | Summary | Edits

record analysis =
  matching_score :: "int option"
  summary :: string
  suggested_edits :: "string list"

record parser_state = analysis +
  current_section :: "parser_section option"

definition initial_state :: parser_state where
  "initial_state =
     \<lparr>matching_score = None, summary = [], suggested_edits = [], current_section = None\<rparr>"

text \<open>The \<open>try\<close> block of the score branch, and the block with its \<open>except\<close> clause:
  \<open>ValueError\<close> and \<open>IndexError\<close> are caught and give \<open>None\<close>, any other exception
  would pass.\<close>

fun is_ValueError :: "error \<Rightarrow> bool" where
  "is_ValueError (ValueError m) = True"
| "is_ValueError e = False"

definition score_attempt :: "nat \<Rightarrow> string \<Rightarrow> error + int" where
  "score_attempt max_str_digits line =
     bind_err (py_index (split CHR '':'' line) 1) (\<lambda>p.
       let score_part = strip p in
       bind_err (py_index (split CHR ''/'' score_part) 0) (py_int max_str_digits))"

definition score_of_line :: "nat \<Rightarrow> string \<Rightarrow> error + int option" where
  "score_of_line max_str_digits line =
     (case score_attempt max_str_digits line of
        Inr n \<Rightarrow> Inr (Some n)
      | Inl e \<Rightarrow> if is_ValueError e \<or> e = IndexError then Inr None else Inl e)"

text \<open>One iteration of \<open>for line in lines\<close>.\<close>

definition step :: "nat \<Rightarrow> parser_state \<Rightarrow> string \<Rightarrow> error + parser_state" where
  "step max_str_digits st line =
     (if contains ''Matching Score:'' line then
        bind_err (score_of_line max_str_digits line) (\<lambda>sc.
          Inr (st\<lparr>current_section := Some Score, matching_score := sc\<rparr>))
      else if contains ''Summary:'' line then
        bind_err (py_index (split_max CHR '':'' 1 line) 1) (\<lambda>p.
          Inr (st\<lparr>current_section := Some Summary, summary := strip p\<rparr>))
      else if contains ''Suggested Edits:'' line then
        Inr (st\<lparr>current_section := Some Edits\<rparr>)
      else if current_section st = Some Edits \<and> startswith (strip line) ''-'' then
        Inr (st\<lparr>suggested_edits := suggested_edits st @ [strip line]\<rparr>)
      else if current_section st = Some Summary then
        Inr (st\<lparr>summary := summary st @ [nl] @ strip line\<rparr>)
      else Inr st)"

fun run :: "nat \<Rightarrow> parser_state \<Rightarrow> string list \<Rightarrow> error + parser_state" where
  "run max_str_digits st [] = Inr st"
| "run max_str_digits st (line # lines) =
     bind_err (step max_str_digits st line) (\<lambda>st'. run max_str_digits st' lines)"

text \<open>From \<open>score = None\<close> to the \<open>return\<close>: the parser, on the response text.\<close>

definition parse_response :: "nat \<Rightarrow> string \<Rightarrow> error + analysis" where
  "parse_response max_str_digits response_text =
     bind_err (run max_str_digits initial_state (split nl response_text)) (\<lambda>st.
       Inr \<lparr>matching_score = matching_score st, summary = summary st,
            suggested_edits = suggested_edits st\<rparr>)"

text \<open>The three marker tests of the loop, and the pieces of a marker line the branches
  read: \<open>line.split(':')[1]\<close> is the text between the first and the second colon,
  \<open>score_part.split('/')[0]\<close> the text before the first slash, and
  \<open>line.split(':', 1)[1]\<close> all the text after the first colon.\<close>

definition marker_line :: "string \<Rightarrow> bool" where
  "marker_line line =
     (contains ''Matching Score:'' line \<or> contains ''Summary:'' line
      \<or> contains ''Suggested Edits:'' line)"

definition text_after_first_colon :: "string \<Rightarrow> string" where
  "text_after_first_colon line = tl (dropWhile (\<lambda>c. c \<noteq> CHR '':'') line)"

definition score_text :: "string \<Rightarrow> string" where
  "score_text line =
     takeWhile (\<lambda>c. c \<noteq> CHR ''/'')
       (strip (takeWhile (\<lambda>c. c \<noteq> CHR '':'') (text_after_first_colon line)))"

definition score_value :: "nat \<Rightarrow> string \<Rightarrow> int option" where
  "score_value max_str_digits line =
     (case py_int max_str_digits (score_text line) of Inr n \<Rightarrow> Some n | Inl e \<Rightarrow> None)"

section \<open>The prompt of \<open>get_matching_score_summary_and_edits\<close>\<close>

text \<open>
  \<open>template.format(**kwargs)\<close> on the fragment of format strings the template is in:
  literal text, the escapes \<open>{{\<close> and \<open>}}\<close>, and replacement fields that are a plain
  keyword name. The second argument is the field name read so far, \<open>None\<close> outside a
  field. A value is inserted as it is and never read as a format string again. A field
  with a conversion, a format specification, an attribute or an index is outside the
  fragment.
\<close>

definition emit :: "string \<Rightarrow> error + string \<Rightarrow> error + string" where
  "emit v r = (case r of Inl e \<Rightarrow> Inl e | Inr out \<Rightarrow> Inr (v @ out))"

fun py_format :: "(string \<times> string) list \<Rightarrow> string option \<Rightarrow> string \<Rightarrow> error + string" where
  "py_format kwargs None [] = Inr []"
| "py_format kwargs (Some name) [] = Inl (ValueError ''expected } before end of string'')"
| "py_format kwargs None (c # cs) =
     (if c = CHR ''{'' then
        (case cs of
           [] \<Rightarrow> Inl (ValueError ''Single { encountered in format string'')
         | d # ds \<Rightarrow>
             if d = CHR ''{'' then emit ''{'' (py_format kwargs None ds)
             else py_format kwargs (Some []) cs)
      else if c = CHR ''}'' then
        (case cs of
           [] \<Rightarrow> Inl (ValueError ''Single } encountered in format string'')
         | d # ds \<Rightarrow>
             if d = CHR ''}'' then emit ''}'' (py_format kwargs None ds)
             else Inl (ValueError ''Single } encountered in format string''))
      else emit [c] (py_format kwargs None cs))"
| "py_format kwargs (Some name) (c # cs) =
     (if c = CHR ''}'' then
        (if list_all is_digit name then Inl IndexError
         else (case map_of kwargs name of
                 None \<Rightarrow> Inl (KeyError name)
               | Some v \<Rightarrow> emit v (py_format kwargs None cs)))
      else if c \<in> set ''{!:.['' then Inl OutsideFragment
      else py_format kwargs (Some (name @ [c])) cs)"

definition prompt_template :: string where
  "prompt_template = join_nl [
        '''',
        ''    You are an AI assistant that specializes in matching resumes to job descriptions.'',
        ''    Given a resume and a job description, perform the following tasks:'',
        ''    1. Identify key skills from the resume that match the job description.'',
        ''    2. Identify relevant project experience from the resume that aligns with the job requirements.'',
        ''    3. Assess the overall compatibility between the resume and the job description.'',
        ''    4. Generate a matching score out of 100, where 100 is a perfect match.'',
        ''    5. Provide a concise summary explaining the matching score, highlighting strengths and weaknesses.'',
        ''    6. Suggest specific edits to the resume to better match the job description. Provide these as a bulleted list.'',
        '''',
        ''    Resume: {resume}'',
        ''    Job Description: {job_description}'',
        '''',
        ''    Please provide the output in the following format:'',
        '''',
        ''    Matching Score: [SCORE]/100'',
        ''    Summary: [SUMMARY TEXT]'',
        ''    Suggested Edits:'',
        ''    - [EDIT 1]'',
        ''    - [EDIT 2]'',
        ''    - ...'',
        ''    '']"

text \<open>The text of the template before the field \<open>{resume}\<close>, between the two fields,
  and after the field \<open>{job_description}\<close>.\<close>

definition prompt_head :: string where
  "prompt_head = join_nl [
        '''',
        ''    You are an AI assistant that specializes in matching resumes to job descriptions.'',
        ''    Given a resume and a job description, perform the following tasks:'',
        ''    1. Identify key skills from the resume that match the job description.'',
        ''    2. Identify relevant project experience from the resume that aligns with the job requirements.'',
        ''    3. Assess the overall compatibility between the resume and the job description.'',
        ''    4. Generate a matching score out of 100, where 100 is a perfect match.'',
        ''    5. Provide a concise summary explaining the matching score, highlighting strengths and weaknesses.'',
        ''    6. Suggest specific edits to the resume to better match the job description. Provide these as a bulleted list.'',
        '''',
        ''    Resume: '']"

definition prompt_middle :: string where
  "prompt_middle = join_nl ['''', ''    Job Description: '']"

definition prompt_tail :: string where
  "prompt_tail = join_nl [
        '''',
        '''',
        ''    Please provide the output in the following format:'',
        '''',
        ''    Matching Score: [SCORE]/100'',
        ''    Summary: [SUMMARY TEXT]'',
        ''    Suggested Edits:'',
        ''    - [EDIT 1]'',
        ''    - [EDIT 2]'',
        ''    - ...'',
        ''    '']"

definition formatted_prompt :: "string \<Rightarrow> string \<Rightarrow> error + string" where
  "formatted_prompt resume_text jd_text =
     py_format [(''resume'', resume_text), (''job_description'', jd_text)] None
       prompt_template"

text \<open>The whole function: the prompt is rendered, sent to the language model \<open>llm\<close> (an
  external service, a parameter here) and the response text is parsed.\<close>

definition get_matching_score_summary_and_edits ::
  "nat \<Rightarrow> (string \<Rightarrow> error + string) \<Rightarrow> string \<Rightarrow> string \<Rightarrow> error + analysis" where
  "get_matching_score_summary_and_edits max_str_digits llm resume_text jd_text =
     bind_err (formatted_prompt resume_text jd_text) (\<lambda>prompt.
       bind_err (llm prompt) (\<lambda>response_text.
         parse_response max_str_digits response_text))"

section \<open>\<open>load_document\<close>\<close>

text \<open>The loader classes are external; \<open>load\<close> stands for \<open>loader.load()\<close>.\<close>

datatype loader = PyPDFLoader string | Docx2txtLoader string | TextLoader string

definition select_loader :: "string \<Rightarrow> error + loader" where
  "select_loader file_path =
     (if endswith file_path ''.pdf'' then Inr (PyPDFLoader file_path)
      else if endswith file_path ''.docx'' then Inr (Docx2txtLoader file_path)
      else if endswith file_path ''.txt'' then Inr (TextLoader file_path)
      else Inl (ValueError ''Unsupported file type''))"

definition load_document :: "(loader \<Rightarrow> error + 'd) \<Rightarrow> string \<Rightarrow> error + 'd" where
  "load_document load file_path = bind_err (select_loader file_path) load"

section \<open>\<open>get_rag_chain\<close>\<close>

text \<open>
  The text splitter, the embedding model and the vector store are external. The
  splitter is a parameter \<open>split_text chunk_size chunk_overlap text\<close>; a document is
  its page content; \<open>create_documents\<close> splits each text in turn. \<open>embeddings\<close> embeds one
  text and may fail. \<open>from_documents\<close> first embeds the documents in the order given
  (\<open>embed_documents\<close>; one failed embedding fails the construction), then builds the
  index from the vectors, reading the dimension off the first one, which raises
  \<open>IndexError\<close> when there is no document, and stores each document with its vector; the
  store is the list of stored pairs in insertion order.
\<close>

definition create_documents :: "(string \<Rightarrow> string list) \<Rightarrow> string list \<Rightarrow> string list" where
  "create_documents text_splitter texts = concat (map text_splitter texts)"

fun embed_documents :: "(string \<Rightarrow> error + 'v) \<Rightarrow> string list \<Rightarrow> error + (string \<times> 'v) list" where
  "embed_documents embeddings [] = Inr []"
| "embed_documents embeddings (d # ds) =
     bind_err (embeddings d) (\<lambda>v.
       bind_err (embed_documents embeddings ds) (\<lambda>rest. Inr ((d, v) # rest)))"

definition from_documents :: "(string \<Rightarrow> error + 'v) \<Rightarrow> string list \<Rightarrow> error + (string \<times> 'v) list" where
  "from_documents embeddings docs =
     bind_err (embed_documents embeddings docs) (\<lambda>pairs.
       if pairs = [] then Inl IndexError else Inr pairs)"

definition get_rag_chain ::
  "(nat \<Rightarrow> nat \<Rightarrow> string \<Rightarrow> string list) \<Rightarrow> (string \<Rightarrow> error + 'v) \<Rightarrow> string \<Rightarrow> string
     \<Rightarrow> error + (string \<times> 'v) list" where
  "get_rag_chain split_text embeddings resume_content jd_content =
     (let text_splitter = split_text 1000 200;
          resume_docs = create_documents text_splitter [resume_content];
          jd_docs = create_documents text_splitter [jd_content]
      in from_documents embeddings (resume_docs @ jd_docs))"

section \<open>Properties of the built-ins\<close>

lemma contains_set: "contains sub s \<Longrightarrow> set sub \<subseteq> set s"
proof (induction s)
  case Nil
  then show ?case by simp
next
  case (Cons c cs)
  show ?case
  proof (cases "startswith (c # cs) sub")
    case True
    then have "sub = take (length sub) (c # cs)" by (simp add: startswith_def)
    then have "set sub \<subseteq> set (c # cs)" by (metis set_take_subset)
    then show ?thesis .
  next
    case False
    with Cons show ?thesis by auto
  qed
qed

lemma contains_iff: "contains sub s \<longleftrightarrow> (\<exists>p q. s = p @ sub @ q)"
proof (induction s)
  case Nil
  show ?case by auto
next
  case (Cons c cs)
  have sw: "startswith (c # cs) sub \<longleftrightarrow> (\<exists>q. c # cs = sub @ q)"
    unfolding startswith_def
    by (metis append_eq_conv_conj append_take_drop_id)
  show ?case
  proof
    assume "contains sub (c # cs)"
    then consider "startswith (c # cs) sub" | "contains sub cs" by auto
    then show "\<exists>p q. c # cs = p @ sub @ q"
    proof cases
      case 1
      then obtain q where "c # cs = sub @ q" using sw by blast
      then have "c # cs = [] @ sub @ q" by simp
      then show ?thesis by blast
    next
      case 2
      then obtain p q where "cs = p @ sub @ q" using Cons.IH by blast
      then have "c # cs = (c # p) @ sub @ q" by simp
      then show ?thesis by blast
    qed
  next
    assume "\<exists>p q. c # cs = p @ sub @ q"
    then obtain p q where pq: "c # cs = p @ sub @ q" by blast
    show "contains sub (c # cs)"
    proof (cases p)
      case Nil
      with pq have "startswith (c # cs) sub" using sw by auto
      then show ?thesis by simp
    next
      case (Cons a p')
      with pq have "cs = p' @ sub @ q" by simp
      then have "contains sub cs" using Cons.IH by blast
      then show ?thesis by simp
    qed
  qed
qed

lemma split_nonempty: "split sep s \<noteq> []"
  by (induction s) (auto split: list.splits)

lemma split_unfold:
  "split sep s =
     (if sep \<in> set s
      then takeWhile (\<lambda>c. c \<noteq> sep) s # split sep (tl (dropWhile (\<lambda>c. c \<noteq> sep) s))
      else [s])"
  by (induction s) (auto split: list.splits simp: split_nonempty)

lemma split_max_one:
  "split_max sep (Suc 0) s =
     (if sep \<in> set s
      then [takeWhile (\<lambda>c. c \<noteq> sep) s, tl (dropWhile (\<lambda>c. c \<noteq> sep) s)]
      else [s])"
  by (induction s) (auto split: list.splits)


section \<open>The loop of the response parser\<close>

lemma py_int_error: "py_int lim s = Inl e \<Longrightarrow> is_ValueError e"
  by (auto simp: py_int_def Let_def split: if_splits)

lemma colon_in_marker:
  assumes "contains ''Matching Score:'' line \<or> contains ''Summary:'' line"
  shows "CHR '':'' \<in> set line"
proof -
  have a: "CHR '':'' \<in> set ''Matching Score:''" by simp
  have b: "CHR '':'' \<in> set ''Summary:''" by simp
  from assms show ?thesis
  proof
    assume "contains ''Matching Score:'' line"
    then have "set ''Matching Score:'' \<subseteq> set line" by (rule contains_set)
    with a show ?thesis by (rule subsetD [rotated])
  next
    assume "contains ''Summary:'' line"
    then have "set ''Summary:'' \<subseteq> set line" by (rule contains_set)
    with b show ?thesis by (rule subsetD [rotated])
  qed
qed

lemma takeWhile_no_sep: "sep \<notin> set s \<Longrightarrow> takeWhile (\<lambda>c. c \<noteq> sep) s = s"
  by (simp add: takeWhile_eq_all_conv) auto

lemma second_part:
  "sep \<in> set s \<Longrightarrow>
   py_index (split sep s) (Suc 0) = Inr (takeWhile (\<lambda>c. c \<noteq> sep) (tl (dropWhile (\<lambda>c. c \<noteq> sep) s)))"
proof -
  assume a: "sep \<in> set s"
  let ?r = "tl (dropWhile (\<lambda>c. c \<noteq> sep) s)"
  have "split sep s = takeWhile (\<lambda>c. c \<noteq> sep) s # split sep ?r"
    using a split_unfold [of sep s] by simp
  moreover have "split sep ?r = takeWhile (\<lambda>c. c \<noteq> sep) ?r # tl (split sep ?r)"
    using split_unfold [of sep ?r] by (cases "sep \<in> set ?r") (simp_all add: takeWhile_no_sep)
  ultimately have "split sep s =
      takeWhile (\<lambda>c. c \<noteq> sep) s # takeWhile (\<lambda>c. c \<noteq> sep) ?r # tl (split sep ?r)"
    by simp
  then show ?thesis by (simp add: py_index_def)
qed

lemma first_part: "py_index (split sep s) 0 = Inr (takeWhile (\<lambda>c. c \<noteq> sep) s)"
  using split_unfold [of sep s] by (cases "sep \<in> set s") (simp_all add: py_index_def takeWhile_no_sep)

lemma score_attempt_marker:
  "contains ''Matching Score:'' line \<Longrightarrow>
   score_attempt lim line = py_int lim (score_text line)"
  using colon_in_marker [of line]
  by (simp add: score_attempt_def second_part first_part bind_err_def score_text_def
        text_after_first_colon_def)

lemma score_of_line_marker:
  "contains ''Matching Score:'' line \<Longrightarrow> score_of_line lim line = Inr (score_value lim line)"
  using py_int_error [of lim "score_text line"]
  by (auto simp: score_of_line_def score_attempt_marker score_value_def split: sum.splits)

lemma step_score:
  "contains ''Matching Score:'' line \<Longrightarrow>
   step lim st line =
     Inr (st\<lparr>current_section := Some Score, matching_score := score_value lim line\<rparr>)"
  by (simp add: step_def score_of_line_marker bind_err_def)

lemma step_summary:
  "\<not> contains ''Matching Score:'' line \<Longrightarrow> contains ''Summary:'' line \<Longrightarrow>
   step lim st line =
     Inr (st\<lparr>current_section := Some Summary,
              summary := strip (text_after_first_colon line)\<rparr>)"
  using colon_in_marker [of line]
  by (simp add: step_def split_max_one py_index_def bind_err_def text_after_first_colon_def)

lemma step_edits_marker:
  "\<not> contains ''Matching Score:'' line \<Longrightarrow> \<not> contains ''Summary:'' line \<Longrightarrow>
   contains ''Suggested Edits:'' line \<Longrightarrow>
   step lim st line = Inr (st\<lparr>current_section := Some Edits\<rparr>)"
  by (simp add: step_def)

lemma step_plain:
  "\<not> marker_line line \<Longrightarrow>
   step lim st line =
     Inr (if current_section st = Some Edits \<and> startswith (strip line) ''-''
          then st\<lparr>suggested_edits := suggested_edits st @ [strip line]\<rparr>
          else if current_section st = Some Summary
          then st\<lparr>summary := summary st @ [nl] @ strip line\<rparr>
          else st)"
  by (simp add: step_def marker_line_def)

lemma step_total: "\<exists>st'. step lim st line = Inr st'"
proof -
  consider "contains ''Matching Score:'' line"
    | "\<not> contains ''Matching Score:'' line" "contains ''Summary:'' line"
    | "\<not> contains ''Matching Score:'' line" "\<not> contains ''Summary:'' line" "contains ''Suggested Edits:'' line"
    | "\<not> marker_line line"
    unfolding marker_line_def by blast
  then show ?thesis
    by cases (simp_all add: step_score step_summary step_edits_marker step_plain)
qed

lemma run_total: "\<exists>st'. run lim st ls = Inr st'"
proof (induction ls arbitrary: st)
  case Nil
  show ?case by simp
next
  case (Cons l ls)
  obtain st1 where "step lim st l = Inr st1" using step_total by blast
  then show ?case using Cons.IH [of st1] by (simp add: bind_err_def)
qed

lemma run_append:
  "run lim st (xs @ ys) = bind_err (run lim st xs) (\<lambda>st'. run lim st' ys)"
proof (induction xs arbitrary: st)
  case Nil
  show ?case by (simp add: bind_err_def)
next
  case (Cons x xs)
  obtain st1 where "step lim st x = Inr st1" using step_total by blast
  then show ?case using Cons.IH [of st1] by (simp add: bind_err_def)
qed

lemmas parser_eval =
  parse_response_def nl_def initial_state_def step_def startswith_def score_of_line_def
  score_attempt_def py_index_def bind_err_def strip_def isspace_def py_int_def
  int_space_def numeral_char_def is_digit_def digits_value_def digit_val_def
  digits_ok_def too_many_digits_def has_sign_def Let_def

lemma step_keeps_score:
  "\<not> contains ''Matching Score:'' line \<Longrightarrow>
   \<exists>st'. step lim st line = Inr st' \<and> matching_score st' = matching_score st"
proof -
  assume a: "\<not> contains ''Matching Score:'' line"
  consider "contains ''Summary:'' line"
    | "\<not> contains ''Summary:'' line" "contains ''Suggested Edits:'' line"
    | "\<not> marker_line line"
    using a unfolding marker_line_def by blast
  then show ?thesis
    using a by cases (simp_all add: step_summary step_edits_marker step_plain)
qed

lemma step_edits_extend:
  "\<exists>st' others. step lim st line = Inr st' \<and> suggested_edits st' = suggested_edits st @ others"
proof -
  consider "contains ''Matching Score:'' line"
    | "\<not> contains ''Matching Score:'' line" "contains ''Summary:'' line"
    | "\<not> contains ''Matching Score:'' line" "\<not> contains ''Summary:'' line"
      "contains ''Suggested Edits:'' line"
    | "\<not> marker_line line"
    unfolding marker_line_def by blast
  then show ?thesis
    by cases (simp_all add: step_score step_summary step_edits_marker step_plain)
qed

lemma run_edits_extend:
  "\<exists>st' others. run lim st ls = Inr st' \<and> suggested_edits st' = suggested_edits st @ others"
proof (induction ls arbitrary: st)
  case Nil
  show ?case by simp
next
  case (Cons l ls)
  obtain st1 m1 where 1: "step lim st l = Inr st1" "suggested_edits st1 = suggested_edits st @ m1"
    using step_edits_extend by blast
  obtain st2 m2 where 2: "run lim st1 ls = Inr st2" "suggested_edits st2 = suggested_edits st1 @ m2"
    using Cons.IH by blast
  from 1 2 have "run lim st (l # ls) = Inr st2 \<and> suggested_edits st2 = suggested_edits st @ (m1 @ m2)"
    by (simp add: bind_err_def)
  then show ?case by blast
qed

lemma run_plain_edits:
  "current_section st = Some Edits \<Longrightarrow> \<forall>l\<in>set ls. \<not> marker_line l \<Longrightarrow>
   run lim st ls =
     Inr (st\<lparr>suggested_edits :=
               suggested_edits st @ filter (\<lambda>t. startswith t ''-'') (map strip ls)\<rparr>)"
proof (induction ls arbitrary: st)
  case Nil
  show ?case by simp
next
  case (Cons l ls)
  then have nm: "\<not> marker_line l" and rest: "\<forall>l\<in>set ls. \<not> marker_line l" by simp_all
  show ?case
  proof (cases "startswith (strip l) ''-''")
    case True
    let ?st1 = "st\<lparr>suggested_edits := suggested_edits st @ [strip l]\<rparr>"
    have "step lim st l = Inr ?st1" using nm Cons.prems(1) True by (simp add: step_plain)
    moreover have "current_section ?st1 = Some Edits" using Cons.prems(1) by simp
    ultimately show ?thesis using Cons.IH [of ?st1] rest True by (simp add: bind_err_def)
  next
    case False
    have "step lim st l = Inr st" using nm Cons.prems(1) False by (simp add: step_plain)
    then show ?thesis using Cons.IH [of st] rest False Cons.prems(1) by (simp add: bind_err_def)
  qed
qed

lemma run_plain_summary:
  "current_section st = Some Summary \<Longrightarrow> \<forall>l\<in>set ls. \<not> marker_line l \<Longrightarrow>
   run lim st ls =
     Inr (st\<lparr>summary := foldl (\<lambda>s l. s @ [nl] @ strip l) (summary st) ls\<rparr>)"
proof (induction ls arbitrary: st)
  case Nil
  show ?case by simp
next
  case (Cons l ls)
  then have nm: "\<not> marker_line l" and rest: "\<forall>l\<in>set ls. \<not> marker_line l" by simp_all
  let ?st1 = "st\<lparr>summary := summary st @ [nl] @ strip l\<rparr>"
  have "step lim st l = Inr ?st1" using nm Cons.prems(1) by (simp add: step_plain)
  moreover have "current_section ?st1 = Some Summary" using Cons.prems(1) by simp
  ultimately show ?case using Cons.IH [of ?st1] rest by (simp add: bind_err_def)
qed

lemma run_plain_other:
  "current_section st \<noteq> Some Edits \<Longrightarrow> \<forall>l\<in>set ls. \<not> marker_line l \<Longrightarrow>
   \<exists>st'. run lim st ls = Inr st' \<and> suggested_edits st' = suggested_edits st
        \<and> current_section st' = current_section st"
proof (induction ls arbitrary: st)
  case Nil
  show ?case by simp
next
  case (Cons l ls)
  then have nm: "\<not> marker_line l" and rest: "\<forall>l\<in>set ls. \<not> marker_line l" by simp_all
  obtain st1 where 1: "step lim st l = Inr st1" "suggested_edits st1 = suggested_edits st"
      "current_section st1 = current_section st"
    using nm Cons.prems(1) by (simp add: step_plain)
  obtain st2 where "run lim st1 ls = Inr st2" "suggested_edits st2 = suggested_edits st1"
      "current_section st2 = current_section st1"
    using Cons.IH [of st1] rest 1 Cons.prems(1) by auto
  with 1 show ?case by (simp add: bind_err_def)
qed

lemma run_plain_not_summary:
  "current_section st \<noteq> Some Summary \<Longrightarrow> \<forall>l\<in>set ls. \<not> marker_line l \<Longrightarrow>
   \<exists>st'. run lim st ls = Inr st' \<and> summary st' = summary st
        \<and> current_section st' = current_section st"
proof (induction ls arbitrary: st)
  case Nil
  show ?case by simp
next
  case (Cons l ls)
  then have nm: "\<not> marker_line l" and rest: "\<forall>l\<in>set ls. \<not> marker_line l" by simp_all
  obtain st1 where 1: "step lim st l = Inr st1" "summary st1 = summary st"
      "current_section st1 = current_section st"
    using nm Cons.prems(1) by (simp add: step_plain)
  obtain st2 where "run lim st1 ls = Inr st2" "summary st2 = summary st1"
      "current_section st2 = current_section st1"
    using Cons.IH [of st1] rest 1 Cons.prems(1) by auto
  with 1 show ?case by (simp add: bind_err_def)
qed

lemma run_score:
  "\<exists>st'. run lim st ls = Inr st' \<and>
     matching_score st' =
       (case filter (contains ''Matching Score:'') ls of
          [] \<Rightarrow> matching_score st
        | l # others \<Rightarrow> score_value lim (last (l # others)))"
proof (induction ls arbitrary: st)
  case Nil
  show ?case by simp
next
  case (Cons l ls)
  show ?case
  proof (cases "contains ''Matching Score:'' l")
    case True
    let ?st1 = "st\<lparr>current_section := Some Score, matching_score := score_value lim l\<rparr>"
    have 1: "step lim st l = Inr ?st1" using True by (rule step_score)
    obtain st2 where 2: "run lim ?st1 ls = Inr st2"
      "matching_score st2 =
         (case filter (contains ''Matching Score:'') ls of
            [] \<Rightarrow> matching_score ?st1
          | l # others \<Rightarrow> score_value lim (last (l # others)))"
      using Cons.IH [of ?st1] by blast
    from 1 2 True show ?thesis by (simp add: bind_err_def split: list.splits)
  next
    case False
    obtain st1 where 1: "step lim st l = Inr st1" "matching_score st1 = matching_score st"
      using step_keeps_score [OF False] by blast
    obtain st2 where 2: "run lim st1 ls = Inr st2"
      "matching_score st2 =
         (case filter (contains ''Matching Score:'') ls of
            [] \<Rightarrow> matching_score st1
          | l # others \<Rightarrow> score_value lim (last (l # others)))"
      using Cons.IH [of st1] by blast
    from 1 2 False show ?thesis by (simp add: bind_err_def split: list.splits)
  qed
qed

section \<open>Claims about the response parser\<close>

text \<open>
  C1. The response parser is total over all string inputs: for every response text it
  returns a result without raising, and on the empty string the result has no score, the
  empty summary and no suggested edits. The only statement of the loop that can raise
  outside a \<open>try\<close> block, \<open>line.split(':', 1)[1]\<close>, runs on lines that contain
  \<open>Summary:\<close> and so have a colon.
\<close>

theorem parser_total:
  "(\<exists>r. parse_response max_str_digits response_text = Inr r)
   \<and> parse_response max_str_digits [] =
       Inr \<lparr>matching_score = None, summary = [], suggested_edits = []\<rparr>"
proof
  obtain st where "run max_str_digits initial_state (split nl response_text) = Inr st"
    using run_total by blast
  then show "\<exists>r. parse_response max_str_digits response_text = Inr r"
    by (simp add: parse_response_def bind_err_def)
next
  have "step max_str_digits initial_state [] = Inr initial_state"
    by (simp add: step_def initial_state_def startswith_def strip_def)
  then show "parse_response max_str_digits [] =
      Inr \<lparr>matching_score = None, summary = [], suggested_edits = []\<rparr>"
    by (simp add: parse_response_def bind_err_def initial_state_def)
qed

text \<open>
  C2 (as amended). On a line containing \<open>Matching Score:\<close> the parser takes the text
  between the first and the second colon of the line (all the text after the first
  colon when there is no second one), trims it, takes the part before the first \<open>/\<close>
  (the whole text when there is no slash) and reads it with \<open>int\<close>; when \<open>int\<close> fails
  the score is absent, and in both cases the line is processed without an error. The
  line \<open>Matching Score: 82/100\<close> gives the score 82 and \<open>Matching Score: N/A\<close> gives no
  score.
\<close>

theorem score_line_parse:
  "(contains ''Matching Score:'' line \<longrightarrow>
      step max_str_digits st line =
        Inr (st\<lparr>current_section := Some Score,
                 matching_score := score_value max_str_digits line\<rparr>))
   \<and> parse_response max_str_digits ''Matching Score: 82/100'' =
       Inr \<lparr>matching_score = Some 82, summary = [], suggested_edits = []\<rparr>
   \<and> parse_response max_str_digits ''Matching Score: N/A'' =
       Inr \<lparr>matching_score = None, summary = [], suggested_edits = []\<rparr>"
proof (intro conjI impI)
  assume "contains ''Matching Score:'' line"
  then show "step max_str_digits st line =
      Inr (st\<lparr>current_section := Some Score,
               matching_score := score_value max_str_digits line\<rparr>)"
    by (rule step_score)
next
  show "parse_response max_str_digits ''Matching Score: 82/100'' =
      Inr \<lparr>matching_score = Some 82, summary = [], suggested_edits = []\<rparr>"
    by (simp add: parser_eval)
next
  show "parse_response max_str_digits ''Matching Score: N/A'' =
      Inr \<lparr>matching_score = None, summary = [], suggested_edits = []\<rparr>"
    by (simp add: parser_eval)
qed

theorem score_line_parse_witness:
  "contains ''Matching Score:'' ''Score - Matching Score:  +7 / 10: good''
   \<and> step 4300 initial_state ''Score - Matching Score:  +7 / 10: good'' =
       Inr \<lparr>matching_score = Some 7, summary = [], suggested_edits = [],
            current_section = Some Score\<rparr>"
  using score_line_parse [of "''Score - Matching Score:  +7 / 10: good''" 4300 initial_state]
  by (simp add: startswith_def initial_state_def score_value_def score_text_def
        text_after_first_colon_def parser_eval)

text \<open>
  C2 as stated fails in two places. A score line without a slash is not a failed parse:
  \<open>Matching Score: 82\<close> gives the score 82. And the text read is not all the text after
  the first colon: on \<open>Matching Score: 82:00/100\<close> that text before the slash is
  \<open> 82:00\<close>, which \<open>int\<close> refuses, while the parser reads \<open> 82\<close> and gives 82.
\<close>

theorem score_no_slash_counterexample:
  "CHR ''/'' \<notin> set ''Matching Score: 82''
   \<and> parse_response 4300 ''Matching Score: 82'' =
       Inr \<lparr>matching_score = Some 82, summary = [], suggested_edits = []\<rparr>
   \<and> text_after_first_colon ''Matching Score: 82:00/100'' = '' 82:00/100''
   \<and> py_int 4300 (takeWhile (\<lambda>c. c \<noteq> CHR ''/'') '' 82:00/100'') =
       Inl (ValueError ''invalid literal for int() with base 10'')
   \<and> parse_response 4300 ''Matching Score: 82:00/100'' =
       Inr \<lparr>matching_score = Some 82, summary = [], suggested_edits = []\<rparr>"
  by (simp add: text_after_first_colon_def parser_eval)

text \<open>
  C3 (as amended). For every response text the parser returns, and the score is absent
  when no line contains \<open>Matching Score:\<close>, and otherwise is what the last such line
  gives: the integer \<open>int\<close> reads in its score text, of any sign and size, or absent when
  \<open>int\<close> fails. No range is checked.
\<close>

theorem score_is_last_marker_value:
  "\<exists>r. parse_response max_str_digits response_text = Inr r
     \<and> matching_score r =
        (case filter (contains ''Matching Score:'') (split nl response_text) of
           [] \<Rightarrow> None
         | l # others \<Rightarrow> score_value max_str_digits (last (l # others)))"
proof -
  obtain st where
    "run max_str_digits initial_state (split nl response_text) = Inr st"
    "matching_score st =
       (case filter (contains ''Matching Score:'') (split nl response_text) of
          [] \<Rightarrow> matching_score initial_state
        | l # others \<Rightarrow> score_value max_str_digits (last (l # others)))"
    using run_score by blast
  then show ?thesis
    by (simp add: parse_response_def bind_err_def initial_state_def split: list.splits)
qed

text \<open>
  C3 as stated fails: the scores 150 and -5 are returned as they are written.
\<close>

theorem score_out_of_range_counterexample:
  "parse_response 4300 ''Matching Score: 150/100'' =
     Inr \<lparr>matching_score = Some 150, summary = [], suggested_edits = []\<rparr>
   \<and> parse_response 4300 ''Matching Score: -5/100'' =
     Inr \<lparr>matching_score = Some (- 5), summary = [], suggested_edits = []\<rparr>"
  by (simp add: parser_eval)

text \<open>
  C4. While the section is \<open>edits\<close>, of the following lines without a marker exactly
  those whose trimmed content starts with \<open>-\<close> are appended, trimmed and with the dash
  kept, in the order met; the other lines change nothing. A \<open>Matching Score:\<close> or
  \<open>Summary:\<close> line leaves the \<open>edits\<close> section without adding an edit, and outside that
  section lines without a marker add no edit. The example of the specification gives the
  two edits.
\<close>

theorem edits_accumulate:
  "(current_section st = Some Edits \<and> (\<forall>l\<in>set ls. \<not> marker_line l) \<longrightarrow>
      run max_str_digits st ls =
        Inr (st\<lparr>suggested_edits :=
                  suggested_edits st @ filter (\<lambda>t. startswith t ''-'') (map strip ls)\<rparr>))
   \<and> (contains ''Matching Score:'' line \<or> contains ''Summary:'' line \<longrightarrow>
        (\<exists>st'. step max_str_digits st line = Inr st'
           \<and> current_section st' \<noteq> Some Edits
           \<and> suggested_edits st' = suggested_edits st))
   \<and> (current_section st \<noteq> Some Edits \<and> (\<forall>l\<in>set ls. \<not> marker_line l) \<longrightarrow>
        (\<exists>st'. run max_str_digits st ls = Inr st'
           \<and> current_section st' \<noteq> Some Edits
           \<and> suggested_edits st' = suggested_edits st))
   \<and> parse_response max_str_digits
        (join_nl [''Suggested Edits:'', ''- Add Python experience'',
                  ''- Quantify achievements'', ''Summary: wrap-up'']) =
       Inr \<lparr>matching_score = None, summary = ''wrap-up'',
            suggested_edits = [''- Add Python experience'', ''- Quantify achievements'']\<rparr>"
proof (intro conjI impI)
  assume "current_section st = Some Edits \<and> (\<forall>l\<in>set ls. \<not> marker_line l)"
  then show "run max_str_digits st ls =
      Inr (st\<lparr>suggested_edits :=
                suggested_edits st @ filter (\<lambda>t. startswith t ''-'') (map strip ls)\<rparr>)"
    by (simp add: run_plain_edits)
next
  assume a: "contains ''Matching Score:'' line \<or> contains ''Summary:'' line"
  show "\<exists>st'. step max_str_digits st line = Inr st'
      \<and> current_section st' \<noteq> Some Edits \<and> suggested_edits st' = suggested_edits st"
  proof (cases "contains ''Matching Score:'' line")
    case True
    then show ?thesis by (simp add: step_score)
  next
    case False
    with a show ?thesis by (simp add: step_summary)
  qed
next
  assume "current_section st \<noteq> Some Edits \<and> (\<forall>l\<in>set ls. \<not> marker_line l)"
  then obtain st' where "run max_str_digits st ls = Inr st'"
      "suggested_edits st' = suggested_edits st" "current_section st' = current_section st"
      "current_section st \<noteq> Some Edits"
    using run_plain_other [of st ls max_str_digits] by blast
  then show "\<exists>st'. run max_str_digits st ls = Inr st'
      \<and> current_section st' \<noteq> Some Edits \<and> suggested_edits st' = suggested_edits st"
    by simp
next
  show "parse_response max_str_digits
        (join_nl [''Suggested Edits:'', ''- Add Python experience'',
                  ''- Quantify achievements'', ''Summary: wrap-up'']) =
       Inr \<lparr>matching_score = None, summary = ''wrap-up'',
            suggested_edits = [''- Add Python experience'', ''- Quantify achievements'']\<rparr>"
    by (simp add: parser_eval)
qed

theorem edits_accumulate_witness:
  "current_section (initial_state\<lparr>current_section := Some Edits\<rparr>) = Some Edits
   \<and> \<not> marker_line ''- a'' \<and> \<not> marker_line ''note'' \<and> \<not> marker_line ''  - b  ''
   \<and> \<not> marker_line []
   \<and> run 4300 (initial_state\<lparr>current_section := Some Edits\<rparr>)
        [''- a'', ''note'', ''  - b  '', []] =
       Inr \<lparr>matching_score = None, summary = [], suggested_edits = [''- a'', ''- b''],
            current_section = Some Edits\<rparr>
   \<and> contains ''Summary:'' ''Summary: wrap-up''
   \<and> step 4300 (initial_state\<lparr>current_section := Some Edits\<rparr>) ''Summary: wrap-up'' =
       Inr \<lparr>matching_score = None, summary = ''wrap-up'', suggested_edits = [],
            current_section = Some Summary\<rparr>
   \<and> current_section initial_state \<noteq> Some Edits
   \<and> run 4300 initial_state [''- a'', ''note'', ''  - b  '', []] = Inr initial_state"
  using edits_accumulate [where st = "initial_state\<lparr>current_section := Some Edits\<rparr>"
      and ls = "[''- a'', ''note'', ''  - b  '', []]" and max_str_digits = 4300
      and line = "''Summary: wrap-up''"]
    edits_accumulate [where st = initial_state
      and ls = "[''- a'', ''note'', ''  - b  '', []]" and max_str_digits = 4300
      and line = "''Summary: wrap-up''"]
  by (simp add: marker_line_def parser_eval)

text \<open>
  C5. A \<open>Summary:\<close> marker line (one without \<open>Matching Score:\<close>, which is tested first)
  sets the summary to the trimmed text after the first colon of the line, further colons
  kept. While the section is \<open>summary\<close>, every following line without a marker, blank
  lines included, is trimmed and appended after a newline. Accumulation stops at the
  next marker line: a \<open>Matching Score:\<close> line or a \<open>Suggested Edits:\<close> line leaves the
  summary as it is and leaves the \<open>summary\<close> section, and outside that section lines
  without a marker leave the summary as it is; so in \<open>Summary: a\<close>,
  \<open>Matching Score: 5/10\<close>, \<open>extra\<close> the summary is \<open>a\<close>. A response that is only
  \<open>Summary: foo bar\<close> gives no score, the summary \<open>foo bar\<close> and no edits.
\<close>

theorem summary_accumulate:
  "(\<not> contains ''Matching Score:'' line \<and> contains ''Summary:'' line \<longrightarrow>
      step max_str_digits st line =
        Inr (st\<lparr>current_section := Some Summary,
                 summary := strip (text_after_first_colon line)\<rparr>))
   \<and> (current_section st = Some Summary \<and> (\<forall>l\<in>set ls. \<not> marker_line l) \<longrightarrow>
        run max_str_digits st ls =
          Inr (st\<lparr>summary := foldl (\<lambda>s l. s @ [nl] @ strip l) (summary st) ls\<rparr>))
   \<and> parse_response max_str_digits ''Summary: foo bar'' =
       Inr \<lparr>matching_score = None, summary = ''foo bar'', suggested_edits = []\<rparr>
   \<and> (contains ''Matching Score:'' line
        \<or> (contains ''Suggested Edits:'' line \<and> \<not> contains ''Summary:'' line) \<longrightarrow>
        (\<exists>st'. step max_str_digits st line = Inr st'
           \<and> current_section st' \<noteq> Some Summary
           \<and> summary st' = summary st))
   \<and> (current_section st \<noteq> Some Summary \<and> (\<forall>l\<in>set ls. \<not> marker_line l) \<longrightarrow>
        (\<exists>st'. run max_str_digits st ls = Inr st'
           \<and> current_section st' \<noteq> Some Summary
           \<and> summary st' = summary st))
   \<and> parse_response max_str_digits
        (join_nl [''Summary: a'', ''Matching Score: 5/10'', ''extra'']) =
       Inr \<lparr>matching_score = Some 5, summary = ''a'', suggested_edits = []\<rparr>
   \<and> parse_response max_str_digits
        (join_nl [''Summary: a'', ''Suggested Edits:'', ''extra'', ''- e'']) =
       Inr \<lparr>matching_score = None, summary = ''a'', suggested_edits = [''- e'']\<rparr>"
proof (intro conjI impI)
  assume "\<not> contains ''Matching Score:'' line \<and> contains ''Summary:'' line"
  then show "step max_str_digits st line =
      Inr (st\<lparr>current_section := Some Summary,
               summary := strip (text_after_first_colon line)\<rparr>)"
    by (simp add: step_summary)
next
  assume "current_section st = Some Summary \<and> (\<forall>l\<in>set ls. \<not> marker_line l)"
  then show "run max_str_digits st ls =
      Inr (st\<lparr>summary := foldl (\<lambda>s l. s @ [nl] @ strip l) (summary st) ls\<rparr>)"
    by (simp add: run_plain_summary)
next
  show "parse_response max_str_digits ''Summary: foo bar'' =
      Inr \<lparr>matching_score = None, summary = ''foo bar'', suggested_edits = []\<rparr>"
    by (simp add: parser_eval)
next
  assume a: "contains ''Matching Score:'' line
      \<or> (contains ''Suggested Edits:'' line \<and> \<not> contains ''Summary:'' line)"
  show "\<exists>st'. step max_str_digits st line = Inr st'
      \<and> current_section st' \<noteq> Some Summary \<and> summary st' = summary st"
  proof (cases "contains ''Matching Score:'' line")
    case True
    then show ?thesis by (simp add: step_score)
  next
    case False
    with a show ?thesis by (simp add: step_edits_marker)
  qed
next
  assume "current_section st \<noteq> Some Summary \<and> (\<forall>l\<in>set ls. \<not> marker_line l)"
  then obtain st' where "run max_str_digits st ls = Inr st'"
      "summary st' = summary st" "current_section st' = current_section st"
      "current_section st \<noteq> Some Summary"
    using run_plain_not_summary [of st ls max_str_digits] by blast
  then show "\<exists>st'. run max_str_digits st ls = Inr st'
      \<and> current_section st' \<noteq> Some Summary \<and> summary st' = summary st"
    by simp
next
  show "parse_response max_str_digits
        (join_nl [''Summary: a'', ''Matching Score: 5/10'', ''extra'']) =
       Inr \<lparr>matching_score = Some 5, summary = ''a'', suggested_edits = []\<rparr>"
    by (simp add: parser_eval)
next
  show "parse_response max_str_digits
        (join_nl [''Summary: a'', ''Suggested Edits:'', ''extra'', ''- e'']) =
       Inr \<lparr>matching_score = None, summary = ''a'', suggested_edits = [''- e'']\<rparr>"
    by (simp add: parser_eval)
qed

theorem summary_accumulate_witness:
  "\<not> contains ''Matching Score:'' ''Summary: a: b'' \<and> contains ''Summary:'' ''Summary: a: b''
   \<and> step 4300 (initial_state\<lparr>current_section := Some Summary, summary := ''s''\<rparr>)
        ''Summary: a: b'' =
       Inr \<lparr>matching_score = None, summary = ''a: b'', suggested_edits = [],
            current_section = Some Summary\<rparr>
   \<and> \<not> marker_line [] \<and> \<not> marker_line ''  x  '' \<and> \<not> marker_line ''- y''
   \<and> run 4300 (initial_state\<lparr>current_section := Some Summary, summary := ''s''\<rparr>)
        [[], ''  x  '', ''- y''] =
       Inr \<lparr>matching_score = None, summary = ''s'' @ [nl] @ [nl] @ ''x'' @ [nl] @ ''- y'',
            suggested_edits = [], current_section = Some Summary\<rparr>
   \<and> contains ''Matching Score:'' ''Matching Score: 5/10''
   \<and> step 4300 (initial_state\<lparr>current_section := Some Summary, summary := ''s''\<rparr>)
        ''Matching Score: 5/10'' =
       Inr \<lparr>matching_score = Some 5, summary = ''s'', suggested_edits = [],
            current_section = Some Score\<rparr>
   \<and> contains ''Suggested Edits:'' ''Suggested Edits:''
   \<and> \<not> contains ''Summary:'' ''Suggested Edits:''
   \<and> step 4300 (initial_state\<lparr>current_section := Some Summary, summary := ''s''\<rparr>)
        ''Suggested Edits:'' =
       Inr \<lparr>matching_score = None, summary = ''s'', suggested_edits = [],
            current_section = Some Edits\<rparr>
   \<and> current_section (initial_state\<lparr>current_section := Some Score, summary := ''s''\<rparr>)
        \<noteq> Some Summary
   \<and> run 4300 (initial_state\<lparr>current_section := Some Score, summary := ''s''\<rparr>)
        [[], ''  x  '', ''- y''] =
       Inr \<lparr>matching_score = None, summary = ''s'', suggested_edits = [],
            current_section = Some Score\<rparr>
   \<and> current_section (initial_state\<lparr>current_section := Some Edits, summary := ''s''\<rparr>)
        \<noteq> Some Summary
   \<and> run 4300 (initial_state\<lparr>current_section := Some Edits, summary := ''s''\<rparr>)
        [[], ''  x  '', ''- y''] =
       Inr \<lparr>matching_score = None, summary = ''s'', suggested_edits = [''- y''],
            current_section = Some Edits\<rparr>"
  using summary_accumulate [where st = "initial_state\<lparr>current_section := Some Summary, summary := ''s''\<rparr>"
      and ls = "[[], ''  x  '', ''- y'']" and max_str_digits = 4300
      and line = "''Summary: a: b''"]
    summary_accumulate [where st = "initial_state\<lparr>current_section := Some Summary, summary := ''s''\<rparr>"
      and ls = "[[], ''  x  '', ''- y'']" and max_str_digits = 4300
      and line = "''Matching Score: 5/10''"]
    summary_accumulate [where st = "initial_state\<lparr>current_section := Some Summary, summary := ''s''\<rparr>"
      and ls = "[[], ''  x  '', ''- y'']" and max_str_digits = 4300
      and line = "''Suggested Edits:''"]
    summary_accumulate [where st = "initial_state\<lparr>current_section := Some Score, summary := ''s''\<rparr>"
      and ls = "[[], ''  x  '', ''- y'']" and max_str_digits = 4300
      and line = "''Suggested Edits:''"]
    summary_accumulate [where st = "initial_state\<lparr>current_section := Some Edits, summary := ''s''\<rparr>"
      and ls = "[[], ''  x  '', ''- y'']" and max_str_digits = 4300
      and line = "''Suggested Edits:''"]
  by (simp add: marker_line_def parser_eval)

text \<open>
  C6. The marker of a line is found by substring tests on \<open>Matching Score:\<close>, \<open>Summary:\<close>
  and \<open>Suggested Edits:\<close> in this order, the first that succeeds deciding the section;
  a line with no marker leaves the section as it is. The test is an exact match of the
  characters, so it is case-sensitive.
\<close>

theorem marker_priority:
  "(\<exists>st'. step max_str_digits st line = Inr st'
      \<and> current_section st' =
         (if contains ''Matching Score:'' line then Some Score
          else if contains ''Summary:'' line then Some Summary
          else if contains ''Suggested Edits:'' line then Some Edits
          else current_section st))
   \<and> (contains sub line \<longleftrightarrow> (\<exists>p q. line = p @ sub @ q))"
proof
  consider "contains ''Matching Score:'' line"
    | "\<not> contains ''Matching Score:'' line" "contains ''Summary:'' line"
    | "\<not> contains ''Matching Score:'' line" "\<not> contains ''Summary:'' line"
      "contains ''Suggested Edits:'' line"
    | "\<not> marker_line line"
    unfolding marker_line_def by blast
  then show "\<exists>st'. step max_str_digits st line = Inr st'
      \<and> current_section st' =
         (if contains ''Matching Score:'' line then Some Score
          else if contains ''Summary:'' line then Some Summary
          else if contains ''Suggested Edits:'' line then Some Edits
          else current_section st)"
  proof cases
    case 1
    then show ?thesis by (simp add: step_score)
  next
    case 2
    then show ?thesis by (simp add: step_summary)
  next
    case 3
    then show ?thesis by (simp add: step_edits_marker)
  next
    case 4
    then show ?thesis by (simp add: step_plain marker_line_def)
  qed
next
  show "contains sub line \<longleftrightarrow> (\<exists>p q. line = p @ sub @ q)" by (rule contains_iff)
qed

theorem marker_priority_witness:
  "contains ''Matching Score:'' ''Summary: Matching Score: 5/10''
   \<and> contains ''Summary:'' ''Summary: Matching Score: 5/10''
   \<and> step 4300 initial_state ''Summary: Matching Score: 5/10'' =
       Inr \<lparr>matching_score = None, summary = [], suggested_edits = [],
            current_section = Some Score\<rparr>
   \<and> \<not> contains ''Matching Score:'' ''matching score: 82/100''"
  using marker_priority [where st = initial_state and max_str_digits = 4300
      and line = "''Summary: Matching Score: 5/10''" and sub = "''Summary:''"]
  by (simp add: parser_eval)

text \<open>
  C10. With duplicated markers the later section wins for the score and the summary: after
  a \<open>Matching Score:\<close> line the score is what that line gives, whatever was parsed before
  (absent if its own parse fails), and after a \<open>Summary:\<close> line the summary is the seed of
  that line, whatever was accumulated before. The list of edits is never reset: running
  any lines only appends to it.
\<close>

theorem later_section_wins:
  "(contains ''Matching Score:'' line \<longrightarrow>
      (\<exists>st'. run max_str_digits st (ls @ [line]) = Inr st'
         \<and> matching_score st' = score_value max_str_digits line))
   \<and> (\<not> contains ''Matching Score:'' line \<and> contains ''Summary:'' line \<longrightarrow>
        (\<exists>st'. run max_str_digits st (ls @ [line]) = Inr st'
           \<and> summary st' = strip (text_after_first_colon line)))
   \<and> (\<exists>st' added. run max_str_digits st ls = Inr st'
         \<and> suggested_edits st' = suggested_edits st @ added)"
proof (intro conjI impI)
  obtain st1 where 1: "run max_str_digits st ls = Inr st1" using run_total by blast
  {
    assume "contains ''Matching Score:'' line"
    then show "\<exists>st'. run max_str_digits st (ls @ [line]) = Inr st'
        \<and> matching_score st' = score_value max_str_digits line"
      using 1 by (simp add: run_append bind_err_def step_score)
  next
    assume "\<not> contains ''Matching Score:'' line \<and> contains ''Summary:'' line"
    then show "\<exists>st'. run max_str_digits st (ls @ [line]) = Inr st'
        \<and> summary st' = strip (text_after_first_colon line)"
      using 1 by (simp add: run_append bind_err_def step_summary)
  next
    show "\<exists>st' added. run max_str_digits st ls = Inr st'
        \<and> suggested_edits st' = suggested_edits st @ added"
      by (rule run_edits_extend)
  }
qed

theorem later_section_wins_witness:
  "contains ''Matching Score:'' ''Matching Score: N/A''
   \<and> run 4300 initial_state
        ([''Matching Score: 82/100'', ''Summary: first'', ''Suggested Edits:'', ''- e1'',
          ''Summary: second'', ''Suggested Edits:'', ''- e2''] @ [''Matching Score: N/A'']) =
       Inr \<lparr>matching_score = None, summary = ''second'', suggested_edits = [''- e1'', ''- e2''],
            current_section = Some Score\<rparr>
   \<and> \<not> contains ''Matching Score:'' ''Summary: second''
   \<and> contains ''Summary:'' ''Summary: second''
   \<and> run 4300 initial_state
        ([''Summary: first'', ''more of it'', ''Suggested Edits:'', ''- e1'']
           @ [''Summary: second'']) =
       Inr \<lparr>matching_score = None, summary = ''second'', suggested_edits = [''- e1''],
            current_section = Some Summary\<rparr>"
  using later_section_wins [where st = initial_state and max_str_digits = 4300
      and line = "''Matching Score: N/A''"
      and ls = "[''Matching Score: 82/100'', ''Summary: first'', ''Suggested Edits:'', ''- e1'',
          ''Summary: second'', ''Suggested Edits:'', ''- e2'']"]
    later_section_wins [where st = initial_state and max_str_digits = 4300
      and line = "''Summary: second''"
      and ls = "[''Summary: first'', ''more of it'', ''Suggested Edits:'', ''- e1'']"]
  by (simp add: parser_eval)

section \<open>Claims about the prompt\<close>

lemma emit_Nil: "emit [] r = r"
  by (simp add: emit_def split: sum.splits)

lemma emit_emit: "emit u (emit v r) = emit (u @ v) r"
  by (simp add: emit_def split: sum.splits)

lemma emit_Inr: "emit v (Inr out) = Inr (v @ out)"
  by (simp add: emit_def)

lemma format_literal:
  "CHR ''{'' \<notin> set lit \<Longrightarrow> CHR ''}'' \<notin> set lit \<Longrightarrow>
   py_format kwargs None (lit @ rest) = emit lit (py_format kwargs None rest)"
proof (induction lit)
  case Nil
  show ?case by (simp add: emit_Nil)
next
  case (Cons c lit)
  then have "py_format kwargs None ((c # lit) @ rest) = emit [c] (emit lit (py_format kwargs None rest))"
    by auto
  then show ?case by (simp add: emit_emit)
qed

lemma format_field_name:
  "\<forall>c\<in>set name. c \<notin> set ''{}!:.['' \<Longrightarrow>
   py_format kwargs (Some acc) (name @ CHR ''}'' # rest) =
     (if list_all is_digit (acc @ name) then Inl IndexError
      else (case map_of kwargs (acc @ name) of
              None \<Rightarrow> Inl (KeyError (acc @ name))
            | Some v \<Rightarrow> emit v (py_format kwargs None rest)))"
proof (induction name arbitrary: acc)
  case Nil
  show ?case by (simp split: option.splits)
next
  case (Cons c name)
  then have "py_format kwargs (Some acc) ((c # name) @ CHR ''}'' # rest) =
      py_format kwargs (Some (acc @ [c])) (name @ CHR ''}'' # rest)"
    by simp
  with Cons show ?case by (simp split: option.splits)
qed

lemma format_field:
  assumes "name \<noteq> []" "\<forall>c\<in>set name. c \<notin> set ''{}!:.[''"
    "\<not> list_all is_digit name" "map_of kwargs name = Some v"
  shows "py_format kwargs None (CHR ''{'' # name @ CHR ''}'' # rest) =
     emit v (py_format kwargs None rest)"
proof -
  obtain c cs where n: "name = c # cs" using assms(1) by (cases name) auto
  then have "c \<noteq> CHR ''{''" using assms(2) by auto
  then have "py_format kwargs None (CHR ''{'' # name @ CHR ''}'' # rest) =
      py_format kwargs (Some []) (name @ CHR ''}'' # rest)"
    using n by simp
  then show ?thesis using format_field_name [OF assms(2), where kwargs = kwargs and acc = "[]" and rest = rest] assms(3,4) by simp
qed

lemma template_parts:
  "prompt_template =
     prompt_head @ (CHR ''{'' # ''resume'' @ CHR ''}'' #
       (prompt_middle @ (CHR ''{'' # ''job_description'' @ CHR ''}'' # (prompt_tail @ []))))"
  by (simp add: prompt_template_def prompt_head_def prompt_middle_def prompt_tail_def)

lemma head_literal: "CHR ''{'' \<notin> set prompt_head \<and> CHR ''}'' \<notin> set prompt_head"
  by (simp add: prompt_head_def nl_def)

lemma middle_literal: "CHR ''{'' \<notin> set prompt_middle \<and> CHR ''}'' \<notin> set prompt_middle"
  by (simp add: prompt_middle_def nl_def)

lemma tail_literal: "CHR ''{'' \<notin> set prompt_tail \<and> CHR ''}'' \<notin> set prompt_tail"
  by (simp add: prompt_tail_def nl_def)

lemma formatted_prompt_parts:
  "formatted_prompt resume_text jd_text =
     Inr (prompt_head @ resume_text @ prompt_middle @ jd_text @ prompt_tail)"
proof -
  let ?kw = "[(''resume'', resume_text), (''job_description'', jd_text)]"
  have t: "py_format ?kw None (prompt_tail @ []) = Inr prompt_tail"
    using format_literal [where lit = prompt_tail and rest = "[]" and kwargs = ?kw] tail_literal by (simp add: emit_Inr)
  have j: "py_format ?kw None (CHR ''{'' # ''job_description'' @ CHR ''}'' # (prompt_tail @ [])) =
      Inr (jd_text @ prompt_tail)"
    using format_field [where name = "''job_description''" and kwargs = ?kw and v = jd_text and rest = "prompt_tail @ []"] t
    by (simp add: emit_Inr is_digit_def)
  have m: "py_format ?kw None
      (prompt_middle @ (CHR ''{'' # ''job_description'' @ CHR ''}'' # (prompt_tail @ []))) =
      Inr (prompt_middle @ jd_text @ prompt_tail)"
    using format_literal [where lit = prompt_middle and kwargs = ?kw] middle_literal j by (simp add: emit_Inr)
  have r: "py_format ?kw None (CHR ''{'' # ''resume'' @ CHR ''}'' #
       (prompt_middle @ (CHR ''{'' # ''job_description'' @ CHR ''}'' # (prompt_tail @ [])))) =
      Inr (resume_text @ prompt_middle @ jd_text @ prompt_tail)"
    using format_field [where name = "''resume''" and kwargs = ?kw and v = resume_text] m
    by (simp add: emit_Inr is_digit_def)
  have "py_format ?kw None prompt_template =
      Inr (prompt_head @ resume_text @ prompt_middle @ jd_text @ prompt_tail)"
    unfolding template_parts
    using format_literal [where lit = prompt_head and kwargs = ?kw] head_literal r by (simp add: emit_Inr)
  then show ?thesis by (simp add: formatted_prompt_def)
qed

text \<open>
  C7. The prompt is the template with the two texts substituted as they are: for every
  resume text and every job-description text, of any length, rendering succeeds and gives
  the template's text with the resume in place of \<open>{resume}\<close> and the job description
  in place of \<open>{job_description}\<close>, unchanged and unchecked; this is the prompt the
  language model receives.
\<close>

theorem prompt_substitution:
  "formatted_prompt resume_text jd_text =
     Inr (prompt_head @ resume_text @ prompt_middle @ jd_text @ prompt_tail)
   \<and> prompt_template =
       prompt_head @ ''{resume}'' @ prompt_middle @ ''{job_description}'' @ prompt_tail
   \<and> get_matching_score_summary_and_edits max_str_digits llm resume_text jd_text =
       bind_err (llm (prompt_head @ resume_text @ prompt_middle @ jd_text @ prompt_tail))
         (parse_response max_str_digits)"
proof (intro conjI)
  show "formatted_prompt resume_text jd_text =
      Inr (prompt_head @ resume_text @ prompt_middle @ jd_text @ prompt_tail)"
    by (rule formatted_prompt_parts)
  show "prompt_template =
      prompt_head @ ''{resume}'' @ prompt_middle @ ''{job_description}'' @ prompt_tail"
    using template_parts by simp
  show "get_matching_score_summary_and_edits max_str_digits llm resume_text jd_text =
      bind_err (llm (prompt_head @ resume_text @ prompt_middle @ jd_text @ prompt_tail))
        (parse_response max_str_digits)"
    by (simp add: get_matching_score_summary_and_edits_def formatted_prompt_parts bind_err_def)
qed

section \<open>Claims about \<open>get_rag_chain\<close>\<close>

lemma embed_documents_order:
  "embed_documents embeddings docs = Inr index \<Longrightarrow>
   map fst index = docs \<and> list_all (\<lambda>(d, v). embeddings d = Inr v) index"
proof (induction docs arbitrary: index)
  case Nil
  then show ?case by simp
next
  case (Cons d ds)
  from Cons.prems obtain v rest where
    v: "embeddings d = Inr v" and r: "embed_documents embeddings ds = Inr rest"
    and i: "index = (d, v) # rest"
    by (auto simp: bind_err_def split: sum.splits)
  from Cons.IH [OF r] v i show ?case by simp
qed

lemma from_documents_order:
  "from_documents embeddings docs = Inr index \<Longrightarrow>
   map fst index = docs \<and> list_all (\<lambda>(d, v). embeddings d = Inr v) index"
proof -
  assume "from_documents embeddings docs = Inr index"
  then have "embed_documents embeddings docs = Inr index"
    by (auto simp: from_documents_def bind_err_def split: sum.splits if_splits)
  then show ?thesis by (rule embed_documents_order)
qed

text \<open>
  C8. The resume and the job description are split separately, with the same splitter of
  chunk size 1000 and overlap 200, and the chunks of both go into one vector store: the
  stored documents are the resume's chunks in their order followed by the job
  description's chunks in their order, each with its own embedding.
\<close>

theorem rag_index_order:
  "get_rag_chain split_text embeddings resume_content jd_content =
     from_documents embeddings
       (split_text 1000 200 resume_content @ split_text 1000 200 jd_content)
   \<and> (get_rag_chain split_text embeddings resume_content jd_content = Inr index \<longrightarrow>
        map fst index = split_text 1000 200 resume_content @ split_text 1000 200 jd_content
        \<and> map fst (take (length (split_text 1000 200 resume_content)) index) =
            split_text 1000 200 resume_content
        \<and> map fst (drop (length (split_text 1000 200 resume_content)) index) =
            split_text 1000 200 jd_content
        \<and> list_all (\<lambda>(d, v). embeddings d = Inr v) index)"
proof
  show g: "get_rag_chain split_text embeddings resume_content jd_content =
     from_documents embeddings
       (split_text 1000 200 resume_content @ split_text 1000 200 jd_content)"
    by (simp add: get_rag_chain_def create_documents_def Let_def)
  show "get_rag_chain split_text embeddings resume_content jd_content = Inr index \<longrightarrow>
        map fst index = split_text 1000 200 resume_content @ split_text 1000 200 jd_content
        \<and> map fst (take (length (split_text 1000 200 resume_content)) index) =
            split_text 1000 200 resume_content
        \<and> map fst (drop (length (split_text 1000 200 resume_content)) index) =
            split_text 1000 200 jd_content
        \<and> list_all (\<lambda>(d, v). embeddings d = Inr v) index"
  proof
    assume "get_rag_chain split_text embeddings resume_content jd_content = Inr index"
    then have "from_documents embeddings
       (split_text 1000 200 resume_content @ split_text 1000 200 jd_content) = Inr index"
      using g by simp
    from from_documents_order [OF this]
    have m: "map fst index = split_text 1000 200 resume_content @ split_text 1000 200 jd_content"
      and e: "list_all (\<lambda>(d, v). embeddings d = Inr v) index" by simp_all
    have "map fst (take (length (split_text 1000 200 resume_content)) index) =
        take (length (split_text 1000 200 resume_content)) (map fst index)"
      by (simp add: take_map)
    moreover have "map fst (drop (length (split_text 1000 200 resume_content)) index) =
        drop (length (split_text 1000 200 resume_content)) (map fst index)"
      by (simp add: drop_map)
    ultimately show "map fst index = split_text 1000 200 resume_content @ split_text 1000 200 jd_content
        \<and> map fst (take (length (split_text 1000 200 resume_content)) index) =
            split_text 1000 200 resume_content
        \<and> map fst (drop (length (split_text 1000 200 resume_content)) index) =
            split_text 1000 200 jd_content
        \<and> list_all (\<lambda>(d, v). embeddings d = Inr v) index"
      using m e by simp
  qed
qed

theorem rag_index_order_witness:
  "get_rag_chain (\<lambda>size overlap text. split CHR '' '' text) (\<lambda>d. Inr (length d)) ''a bc'' ''def g'' =
     Inr [(''a'', 1), (''bc'', 2), (''def'', 3), (''g'', 1)]
   \<and> map fst [(''a'', 1::nat), (''bc'', 2), (''def'', 3), (''g'', 1)] =
       split CHR '' '' ''a bc'' @ split CHR '' '' ''def g''"
  using rag_index_order [where split_text = "\<lambda>size overlap text. split CHR '' '' text"
      and embeddings = "\<lambda>d. Inr (length d)" and resume_content = "''a bc''"
      and jd_content = "''def g''" and index = "[(''a'', 1), (''bc'', 2), (''def'', 3), (''g'', 1)]"]
  by (simp add: bind_err_def get_rag_chain_def create_documents_def from_documents_def Let_def)

section \<open>Claims about \<open>load_document\<close>\<close>

lemma endswith_iff: "endswith s p \<longleftrightarrow> (\<exists>q. s = q @ p)"
proof
  assume "endswith s p"
  then have "s = take (length s - length p) s @ p"
    by (metis append_take_drop_id endswith_def)
  then show "\<exists>q. s = q @ p" by blast
next
  assume "\<exists>q. s = q @ p"
  then show "endswith s p" by (auto simp: endswith_def)
qed

lemma endswith_last: "endswith s p \<Longrightarrow> p \<noteq> [] \<Longrightarrow> last s = last p"
  by (auto simp: endswith_iff)

lemma suffixes_exclusive:
  "\<not> (endswith p ''.pdf'' \<and> endswith p ''.docx'')"
  "\<not> (endswith p ''.pdf'' \<and> endswith p ''.txt'')"
  "\<not> (endswith p ''.docx'' \<and> endswith p ''.txt'')"
  using endswith_last [of p "''.pdf''"] endswith_last [of p "''.docx''"]
    endswith_last [of p "''.txt''"]
  by auto

text \<open>
  C9. A path that ends in none of \<open>.pdf\<close>, \<open>.docx\<close> and \<open>.txt\<close> fails with the
  \<open>ValueError\<close> \<open>Unsupported file type\<close>, whatever the loaders would do (none is called);
  a path that ends in one of the three selects the loader of that suffix and the result
  is that loader's; and the selection fails exactly for the paths outside the three
  suffixes.
\<close>

theorem load_document_dispatch:
  "(\<not> endswith file_path ''.pdf'' \<and> \<not> endswith file_path ''.docx''
      \<and> \<not> endswith file_path ''.txt'' \<longrightarrow>
      load_document load file_path = Inl (ValueError ''Unsupported file type''))
   \<and> (endswith file_path ''.pdf'' \<longrightarrow>
        select_loader file_path = Inr (PyPDFLoader file_path)
        \<and> load_document load file_path = load (PyPDFLoader file_path))
   \<and> (endswith file_path ''.docx'' \<longrightarrow>
        select_loader file_path = Inr (Docx2txtLoader file_path)
        \<and> load_document load file_path = load (Docx2txtLoader file_path))
   \<and> (endswith file_path ''.txt'' \<longrightarrow>
        select_loader file_path = Inr (TextLoader file_path)
        \<and> load_document load file_path = load (TextLoader file_path))
   \<and> ((\<exists>e. select_loader file_path = Inl e) \<longleftrightarrow>
        \<not> (endswith file_path ''.pdf'' \<or> endswith file_path ''.docx''
           \<or> endswith file_path ''.txt''))"
  using suffixes_exclusive [of file_path]
  by (auto simp: load_document_def select_loader_def bind_err_def)

theorem load_document_dispatch_witness:
  "\<not> endswith ''cv.PDF'' ''.pdf'' \<and> \<not> endswith ''cv.PDF'' ''.docx''
   \<and> \<not> endswith ''cv.PDF'' ''.txt''
   \<and> load_document (\<lambda>l. Inr [l]) ''cv.PDF'' = Inl (ValueError ''Unsupported file type'')
   \<and> endswith ''cv.pdf'' ''.pdf''
   \<and> load_document (\<lambda>l. Inr [l]) ''cv.pdf'' = Inr [PyPDFLoader ''cv.pdf'']
   \<and> endswith ''jd.docx'' ''.docx''
   \<and> load_document (\<lambda>l. Inr [l]) ''jd.docx'' = Inr [Docx2txtLoader ''jd.docx'']
   \<and> endswith ''jd.txt'' ''.txt''
   \<and> load_document (\<lambda>l. Inr [l]) ''jd.txt'' = Inr [TextLoader ''jd.txt'']"
  using load_document_dispatch [where file_path = "''cv.PDF''" and load = "\<lambda>l. Inr [l]"]
    load_document_dispatch [where file_path = "''cv.pdf''" and load = "\<lambda>l. Inr [l]"]
    load_document_dispatch [where file_path = "''jd.docx''" and load = "\<lambda>l. Inr [l]"]
    load_document_dispatch [where file_path = "''jd.txt''" and load = "\<lambda>l. Inr [l]"]
  by (simp add: endswith_def)

end
